theory Spec2Isabelle
  imports Main
begin

section \<open>Objects tasks: Rectangle, JSON round trip, css selector builder\<close>

subsection \<open>Rectangle\<close>

text \<open>
  \<^verbatim>\<open>function Rectangle(width, height)\<close> returns an object literal with the two
  data properties and a method \<open>getArea\<close> that closes over the parameters (it does not read
  \<open>this.width\<close>). The number type is left open: any type with a multiplication.
\<close>

record 'n rectangle =
  width :: 'n
  height :: 'n
  getArea :: "unit \<Rightarrow> 'n"

definition Rectangle :: "'n::times \<Rightarrow> 'n \<Rightarrow> 'n rectangle" where
  "Rectangle w h = \<lparr>width = w, height = h, getArea = (\<lambda>_. w * h)\<rparr>"

subsection \<open>getJSON and fromJSON\<close>

text \<open>
  An object is its own data fields together with its prototype. A prototype (a shape) is a
  table of methods; a method reads the own fields of the object it is invoked on.
  \<open>JSON.stringify\<close> and \<open>JSON.parse\<close> belong to the platform, not to the repository:
  both functions take them as parameters. \<open>JSON.parse\<close> may throw, and yields an object
  whose prototype is the platform's default one.
\<close>

type_synonym ('d, 'r) shape = "string \<rightharpoonup> ('d \<Rightarrow> 'r)"

record ('d, 'r) js_object =
  own :: 'd
  proto :: "('d, 'r) shape"

definition setPrototypeOf :: "('d, 'r) js_object \<Rightarrow> ('d, 'r) shape \<Rightarrow> ('d, 'r) js_object" where
  "setPrototypeOf obj p = obj\<lparr>proto := p\<rparr>"

definition getJSON :: "('v \<Rightarrow> string) \<Rightarrow> 'v \<Rightarrow> string" where
  "getJSON JSON_stringify obj = JSON_stringify obj"

definition fromJSON ::
  "(string \<Rightarrow> 'e + ('d, 'r) js_object) \<Rightarrow> ('d, 'r) shape \<Rightarrow> string \<Rightarrow> 'e + ('d, 'r) js_object" where
  "fromJSON JSON_parse p json =
     (case JSON_parse json of
        Inl e \<Rightarrow> Inl e
      | Inr obj \<Rightarrow> Inr (setPrototypeOf obj p))"

text \<open>Calling method \<open>m\<close> on an object: looked up in the prototype, applied to the object.\<close>

definition invoke :: "('d, 'r) js_object \<Rightarrow> string \<Rightarrow> 'r option" where
  "invoke obj m = (case proto obj m of None \<Rightarrow> None | Some f \<Rightarrow> Some (f (own obj)))"

subsection \<open>Css selector builder\<close>

text \<open>
  The property names of the \<open>present\<close> object. A property that was never assigned reads
  as \<open>undefined\<close>, which is falsy.
\<close>

datatype part = Element | Id | Class | Attr | PseudoClass | PseudoElement

record Selector =
  selector :: string
  present :: "part \<rightharpoonup> bool"

fun truthy :: "bool option \<Rightarrow> bool" where
  "truthy None = False"
| "truthy (Some b) = b"

definition stringify :: "Selector \<Rightarrow> string" where
  "stringify s = selector s"

definition toString :: "Selector \<Rightarrow> string" where
  "toString s = selector s"

datatype js_error = Error string

definition quantityError :: js_error where
  "quantityError =
     Error ''Element, id and pseudo-element should not occur more then one time inside the selector''"

definition orderError :: js_error where
  "orderError =
     Error ''Selector parts should be arranged in the following order: element, id, class, attribute, pseudo-class, pseudo-element''"

text \<open>
  Selectors are mutable objects and every method returns the object it worked on, so the
  objects live in a store: an address is an index into the list of objects created so far.
  \<open>this\<close> is either the \<open>cssSelectorBuilder\<close> facade or a reference to a Selector.
\<close>

type_synonym addr = nat
type_synonym heap = "Selector list"

datatype this_val = Builder | Ref addr

text \<open>\<^verbatim>\<open>new Selector(selector)\<close>: \<^verbatim>\<open>this.selector = selector || ''; this.present = {}\<close>.\<close>

definition new_Selector :: "string option \<Rightarrow> heap \<Rightarrow> addr \<times> heap" where
  "new_Selector arg h =
     (length h,
      h @ [\<lparr>selector = (case arg of None \<Rightarrow> [] | Some t \<Rightarrow> (if t = [] then [] else t)),
            present = Map.empty\<rparr>])"

text \<open>\<^verbatim>\<open>this instanceof Selector ? this : new Selector()\<close>\<close>

definition this_Selector :: "this_val \<Rightarrow> heap \<Rightarrow> addr \<times> heap" where
  "this_Selector this h = (case this of Ref a \<Rightarrow> (a, h) | Builder \<Rightarrow> new_Selector None h)"

definition set_selector :: "addr \<Rightarrow> string \<Rightarrow> heap \<Rightarrow> heap" where
  "set_selector a t h = h[a := (h ! a)\<lparr>selector := t\<rparr>]"

definition set_present :: "addr \<Rightarrow> part \<Rightarrow> heap \<Rightarrow> heap" where
  "set_present a k h = h[a := (h ! a)\<lparr>present := (present (h ! a))(k \<mapsto> True)\<rparr>]"

text \<open>
  The six methods. Each returns the thrown error or the address of the selector, and the
  store as it is when the method throws or returns.
\<close>

definition element :: "this_val \<Rightarrow> string \<Rightarrow> heap \<Rightarrow> (js_error + addr) \<times> heap" where
  "element this v h =
     (case this_Selector this h of (a, h1) \<Rightarrow>
        if truthy (present (h1 ! a) Element) then (Inl quantityError, h1)
        else if toString (h1 ! a) \<noteq> [] then (Inl orderError, h1)
        else (Inr a, set_present a Element (set_selector a v h1)))"

definition id' :: "this_val \<Rightarrow> string \<Rightarrow> heap \<Rightarrow> (js_error + addr) \<times> heap" where
  "id' this v h =
     (case this_Selector this h of (a, h1) \<Rightarrow>
        if truthy (present (h1 ! a) Id) then (Inl quantityError, h1)
        else if truthy (present (h1 ! a) PseudoElement) \<or> truthy (present (h1 ! a) Class)
          then (Inl orderError, h1)
        else (Inr a, set_present a Id (set_selector a (selector (h1 ! a) @ ''#'' @ v) h1)))"

definition class' :: "this_val \<Rightarrow> string \<Rightarrow> heap \<Rightarrow> (js_error + addr) \<times> heap" where
  "class' this v h =
     (case this_Selector this h of (a, h1) \<Rightarrow>
        if truthy (present (h1 ! a) Attr) then (Inl orderError, h1)
        else (Inr a, set_present a Class (set_selector a (selector (h1 ! a) @ ''.'' @ v) h1)))"

definition attr :: "this_val \<Rightarrow> string \<Rightarrow> heap \<Rightarrow> (js_error + addr) \<times> heap" where
  "attr this v h =
     (case this_Selector this h of (a, h1) \<Rightarrow>
        if truthy (present (h1 ! a) PseudoClass) then (Inl orderError, h1)
        else (Inr a,
              set_present a Attr (set_selector a (selector (h1 ! a) @ ''['' @ v @ '']'') h1)))"

definition pseudoClass :: "this_val \<Rightarrow> string \<Rightarrow> heap \<Rightarrow> (js_error + addr) \<times> heap" where
  "pseudoClass this v h =
     (case this_Selector this h of (a, h1) \<Rightarrow>
        if truthy (present (h1 ! a) PseudoElement) then (Inl orderError, h1)
        else (Inr a,
              set_present a PseudoClass (set_selector a (selector (h1 ! a) @ '':'' @ v) h1)))"

definition pseudoElement :: "this_val \<Rightarrow> string \<Rightarrow> heap \<Rightarrow> (js_error + addr) \<times> heap" where
  "pseudoElement this v h =
     (case this_Selector this h of (a, h1) \<Rightarrow>
        if truthy (present (h1 ! a) PseudoElement) then (Inl quantityError, h1)
        else if truthy (present (h1 ! a) Class) then (Inl orderError, h1)
        else (Inr a,
              set_present a PseudoElement (set_selector a (selector (h1 ! a) @ ''::'' @ v) h1)))"

text \<open>
  \<^verbatim>\<open>combine(selector1, combinator, selector2)\<close>: the template literal converts both
  selectors with \<open>toString\<close>; the result is a new Selector.
\<close>

definition combine :: "addr \<Rightarrow> string \<Rightarrow> addr \<Rightarrow> heap \<Rightarrow> addr \<times> heap" where
  "combine selector1 combinator selector2 h =
     new_Selector
       (Some (toString (h ! selector1) @ '' '' @ combinator @ '' '' @ toString (h ! selector2))) h"

text \<open>
  The loop at the end of the module copies every method of the facade to
  \<open>Selector.prototype\<close>, so each of them can be called on any Selector, by its name.
\<close>

definition append_part :: "part \<Rightarrow> this_val \<Rightarrow> string \<Rightarrow> heap \<Rightarrow> (js_error + addr) \<times> heap" where
  "append_part k =
     (case k of Element \<Rightarrow> element | Id \<Rightarrow> id' | Class \<Rightarrow> class' | Attr \<Rightarrow> attr
      | PseudoClass \<Rightarrow> pseudoClass | PseudoElement \<Rightarrow> pseudoElement)"

text \<open>
  A chain \<^verbatim>\<open>builder.k1(v1).k2(v2)...\<close>: the first call is made on the receiver given,
  each later one on the selector the previous call returned; a throw ends the chain.
\<close>

fun chain :: "this_val \<Rightarrow> (part \<times> string) list \<Rightarrow> heap \<Rightarrow> (js_error + this_val) \<times> heap" where
  "chain this [] h = (Inr this, h)"
| "chain this ((k, v) # rest) h =
     (case append_part k this v h of
        (Inl e, h1) \<Rightarrow> (Inl e, h1)
      | (Inr a, h1) \<Rightarrow> chain (Ref a) rest h1)"

text \<open>
  Any client program is a sequence of method calls on whatever receivers it holds; a call
  that throws is caught and the program goes on.
\<close>

datatype call = Append part this_val string | Combine addr string addr

fun exec_call :: "call \<Rightarrow> heap \<Rightarrow> heap" where
  "exec_call (Append k this v) h = snd (append_part k this v h)"
| "exec_call (Combine s1 c s2) h = snd (combine s1 c s2 h)"

fun exec_calls :: "call list \<Rightarrow> heap \<Rightarrow> heap" where
  "exec_calls [] h = h"
| "exec_calls (c # cs) h = exec_calls cs (exec_call c h)"

text \<open>\<open>this\<close> refers to an object that exists.\<close>

fun live :: "this_val \<Rightarrow> heap \<Rightarrow> bool" where
  "live Builder h = True"
| "live (Ref a) h = (a < length h)"

text \<open>Every receiver and argument of a program exists when the call is made.\<close>

fun live_call :: "call \<Rightarrow> heap \<Rightarrow> bool" where
  "live_call (Append k this v) h = live this h"
| "live_call (Combine s1 c s2) h = (s1 < length h \<and> s2 < length h)"

fun live_calls :: "call list \<Rightarrow> heap \<Rightarrow> bool" where
  "live_calls [] h = True"
| "live_calls (c # cs) h = (live_call c h \<and> live_calls cs (exec_call c h))"

text \<open>
  The history of a selector: the kinds of part that were appended to the selector at
  address \<open>a\<close> in the course of a program, that is, the methods that returned it.
\<close>

fun appended_by :: "call \<Rightarrow> heap \<Rightarrow> addr \<Rightarrow> part set" where
  "appended_by (Append k this v) h a =
     (if fst (append_part k this v h) = Inr a then {k} else {})"
| "appended_by (Combine s1 c s2) h a = {}"

fun appended :: "call list \<Rightarrow> heap \<Rightarrow> addr \<Rightarrow> part set" where
  "appended [] h a = {}"
| "appended (c # cs) h a = appended_by c h a \<union> appended cs (exec_call c h) a"

section \<open>Basic facts about the methods\<close>

lemma set_present_set_selector:
  "set_present a k (set_selector a t h) =
     h[a := \<lparr>selector = t, present = (present (h ! a))(k \<mapsto> True)\<rparr>]"
proof (cases "a < length h")
  case True
  then show ?thesis by (cases "h ! a") (simp add: set_present_def set_selector_def)
next
  case False
  then have "length h \<le> a" by simp
  then show ?thesis by (simp add: set_present_def set_selector_def list_update_beyond)
qed

lemma this_Selector_Ref: "this_Selector (Ref a) h = (a, h)"
  by (simp add: this_Selector_def)

lemma this_Selector_Builder:
  "this_Selector Builder h = (length h, h @ [\<lparr>selector = [], present = Map.empty\<rparr>])"
  by (simp add: this_Selector_def new_Selector_def)

lemmas op_defs = element_def id'_def class'_def attr_def pseudoClass_def pseudoElement_def

lemma errors_distinct: "quantityError \<noteq> orderError"
  by (simp add: quantityError_def orderError_def)

subsection \<open>Called on a Selector\<close>

lemma element_Ref:
  "element (Ref a) v h =
     (if truthy (present (h ! a) Element) then (Inl quantityError, h)
      else if selector (h ! a) \<noteq> [] then (Inl orderError, h)
      else (Inr a, h[a := \<lparr>selector = v, present = (present (h ! a))(Element \<mapsto> True)\<rparr>]))"
  by (simp add: element_def this_Selector_Ref set_present_set_selector toString_def)

lemma id_Ref:
  "id' (Ref a) v h =
     (if truthy (present (h ! a) Id) then (Inl quantityError, h)
      else if truthy (present (h ! a) PseudoElement) \<or> truthy (present (h ! a) Class)
        then (Inl orderError, h)
      else (Inr a, h[a := \<lparr>selector = selector (h ! a) @ ''#'' @ v,
                              present = (present (h ! a))(Id \<mapsto> True)\<rparr>]))"
  by (simp add: id'_def this_Selector_Ref set_present_set_selector)

lemma class_Ref:
  "class' (Ref a) v h =
     (if truthy (present (h ! a) Attr) then (Inl orderError, h)
      else (Inr a, h[a := \<lparr>selector = selector (h ! a) @ ''.'' @ v,
                              present = (present (h ! a))(Class \<mapsto> True)\<rparr>]))"
  by (simp add: class'_def this_Selector_Ref set_present_set_selector)

lemma attr_Ref:
  "attr (Ref a) v h =
     (if truthy (present (h ! a) PseudoClass) then (Inl orderError, h)
      else (Inr a, h[a := \<lparr>selector = selector (h ! a) @ ''['' @ v @ '']'',
                              present = (present (h ! a))(Attr \<mapsto> True)\<rparr>]))"
  by (simp add: attr_def this_Selector_Ref set_present_set_selector)

lemma pseudoClass_Ref:
  "pseudoClass (Ref a) v h =
     (if truthy (present (h ! a) PseudoElement) then (Inl orderError, h)
      else (Inr a, h[a := \<lparr>selector = selector (h ! a) @ '':'' @ v,
                              present = (present (h ! a))(PseudoClass \<mapsto> True)\<rparr>]))"
  by (simp add: pseudoClass_def this_Selector_Ref set_present_set_selector)

lemma pseudoElement_Ref:
  "pseudoElement (Ref a) v h =
     (if truthy (present (h ! a) PseudoElement) then (Inl quantityError, h)
      else if truthy (present (h ! a) Class) then (Inl orderError, h)
      else (Inr a, h[a := \<lparr>selector = selector (h ! a) @ ''::'' @ v,
                              present = (present (h ! a))(PseudoElement \<mapsto> True)\<rparr>]))"
  by (simp add: pseudoElement_def this_Selector_Ref set_present_set_selector)

lemmas op_Ref = element_Ref id_Ref class_Ref attr_Ref pseudoClass_Ref pseudoElement_Ref

subsection \<open>Called on the facade: a new Selector, which passes every check\<close>

lemma element_Builder:
  "element Builder v h = (Inr (length h), h @ [\<lparr>selector = v, present = [Element \<mapsto> True]\<rparr>])"
  by (simp add: element_def this_Selector_Builder set_present_set_selector toString_def)

lemma id_Builder:
  "id' Builder v h = (Inr (length h), h @ [\<lparr>selector = ''#'' @ v, present = [Id \<mapsto> True]\<rparr>])"
  by (simp add: id'_def this_Selector_Builder set_present_set_selector)

lemma class_Builder:
  "class' Builder v h =
     (Inr (length h), h @ [\<lparr>selector = ''.'' @ v, present = [Class \<mapsto> True]\<rparr>])"
  by (simp add: class'_def this_Selector_Builder set_present_set_selector)

lemma attr_Builder:
  "attr Builder v h =
     (Inr (length h), h @ [\<lparr>selector = ''['' @ v @ '']'', present = [Attr \<mapsto> True]\<rparr>])"
  by (simp add: attr_def this_Selector_Builder set_present_set_selector)

lemma pseudoClass_Builder:
  "pseudoClass Builder v h =
     (Inr (length h), h @ [\<lparr>selector = '':'' @ v, present = [PseudoClass \<mapsto> True]\<rparr>])"
  by (simp add: pseudoClass_def this_Selector_Builder set_present_set_selector)

lemma pseudoElement_Builder:
  "pseudoElement Builder v h =
     (Inr (length h), h @ [\<lparr>selector = ''::'' @ v, present = [PseudoElement \<mapsto> True]\<rparr>])"
  by (simp add: pseudoElement_def this_Selector_Builder set_present_set_selector)

lemmas op_Builder = element_Builder id_Builder class_Builder attr_Builder pseudoClass_Builder
  pseudoElement_Builder

lemma append_part_simps:
  "append_part Element = element" "append_part Id = id'" "append_part Class = class'"
  "append_part Attr = attr" "append_part PseudoClass = pseudoClass"
  "append_part PseudoElement = pseudoElement"
  by (simp_all add: append_part_def)

lemma combine_eq:
  "combine a c b h =
     (length h, h @ [\<lparr>selector = selector (h ! a) @ '' '' @ c @ '' '' @ selector (h ! b),
                      present = Map.empty\<rparr>])"
  by (simp add: combine_def new_Selector_def toString_def)

subsection \<open>A flag that is set stays set, whatever is called afterwards\<close>

lemma nth_update_live:
  "a < length h \<Longrightarrow> (h[b := x]) ! a = (if a = b then x else h ! a)"
  by (cases "a = b") simp_all

lemma exec_call_keeps:
  assumes "a < length h" and "truthy (present (h ! a) k)"
  shows "a < length (exec_call c h) \<and> truthy (present (exec_call c h ! a) k)"
proof (cases c)
  case (Append k' this v)
  show ?thesis
  proof (cases this)
    case Builder
    with Append assms show ?thesis
      by (cases k') (simp_all add: append_part_simps op_Builder nth_append)
  next
    case (Ref b)
    with Append assms show ?thesis
      by (cases k') (auto simp: append_part_simps op_Ref nth_update_live)
  qed
next
  case (Combine s1 cmb s2)
  with assms show ?thesis by (simp add: combine_eq nth_append)
qed

lemma exec_calls_keeps:
  "a < length h \<Longrightarrow> truthy (present (h ! a) k) \<Longrightarrow>
     a < length (exec_calls cs h) \<and> truthy (present (exec_calls cs h ! a) k)"
proof (induction cs arbitrary: h)
  case Nil
  then show ?case by simp
next
  case (Cons c cs)
  from exec_call_keeps [OF Cons.prems] Cons.IH show ?case by simp
qed

lemma success_sets_flag:
  assumes "live this h" and "append_part k this v h = (Inr a, h1)"
  shows "a < length h1 \<and> truthy (present (h1 ! a) k)"
proof (cases this)
  case Builder
  with assms show ?thesis
    by (cases k) (auto simp: append_part_simps op_Builder)
next
  case (Ref b)
  with assms show ?thesis
    by (cases k) (auto simp: append_part_simps op_Ref split: if_splits)
qed

lemma duplicate_raises_quantityError:
  "k \<in> {Element, Id, PseudoElement} \<Longrightarrow> truthy (present (h ! a) k) \<Longrightarrow>
     append_part k (Ref a) v h = (Inl quantityError, h)"
  by (auto simp: append_part_simps op_Ref)

subsection \<open>class, attr and pseudoClass can be repeated\<close>

lemma repeatable_again:
  assumes "k \<in> {Class, Attr, PseudoClass}" and "a < length h"
    and "append_part k (Ref a) v h = (Inr a, h1)"
  shows "a < length h1 \<and> fst (append_part k (Ref a) w h1) = Inr a"
  using assms by (auto simp: append_part_simps op_Ref split: if_splits)

lemma repeatable_chain:
  assumes "k \<in> {Class, Attr, PseudoClass}"
  shows "a < length h \<Longrightarrow> fst (append_part k (Ref a) v h) = Inr a \<Longrightarrow>
     fst (chain (Ref a) (map (Pair k) vs) h) = Inr (Ref a)"
proof (induction vs arbitrary: h v)
  case Nil
  then show ?case by simp
next
  case (Cons w ws)
  obtain r h1 where r: "append_part k (Ref a) w h = (r, h1)"
    by (cases "append_part k (Ref a) w h")
  from assms Cons.prems have "fst (append_part k (Ref a) w h) = Inr a"
    by (auto simp: append_part_simps op_Ref split: if_splits)
  with r have r': "append_part k (Ref a) w h = (Inr a, h1)" by simp
  from repeatable_again [OF assms Cons.prems(1) r']
  have "a < length h1" and "fst (append_part k (Ref a) w h1) = Inr a" by simp_all
  from Cons.IH [OF this] r' show ?case by simp
qed

subsection \<open>The flags of a selector are its history\<close>

lemma exec_call_flags:
  assumes "live_call c h" and "a < length (exec_call c h)"
  shows "truthy (present (exec_call c h ! a) k) \<longleftrightarrow>
           (a < length h \<and> truthy (present (h ! a) k)) \<or> k \<in> appended_by c h a"
proof (cases c)
  case (Append k' this v)
  show ?thesis
  proof (cases this)
    case Builder
    with Append assms show ?thesis
      by (cases k') (auto simp: append_part_simps op_Builder nth_append less_Suc_eq)
  next
    case (Ref b)
    with Append assms show ?thesis
      by (cases k') (auto simp: append_part_simps op_Ref nth_update_live split: if_splits)
  qed
next
  case (Combine s1 cmb s2)
  with assms show ?thesis by (auto simp: combine_eq nth_append less_Suc_eq)
qed

lemma appended_by_live:
  assumes "live_call c h" and "k \<in> appended_by c h a"
  shows "a < length (exec_call c h)"
proof (cases c)
  case (Append k' this v)
  show ?thesis
  proof (cases this)
    case Builder
    with Append assms show ?thesis
      by (cases k') (auto simp: append_part_simps op_Builder split: if_splits)
  next
    case (Ref b)
    with Append assms show ?thesis
      by (cases k') (auto simp: append_part_simps op_Ref split: if_splits)
  qed
next
  case (Combine s1 cmb s2)
  with assms show ?thesis by simp
qed

lemma exec_call_length: "length h \<le> length (exec_call c h)"
proof (cases c)
  case (Append k' this v)
  then show ?thesis
    by (cases k'; cases this) (auto simp: append_part_simps op_Ref op_Builder)
next
  case (Combine s1 cmb s2)
  then show ?thesis by (simp add: combine_eq)
qed

lemma exec_calls_length: "length h \<le> length (exec_calls cs h)"
proof (induction cs arbitrary: h)
  case Nil
  then show ?case by simp
next
  case (Cons c cs)
  from exec_call_length [of h c] Cons.IH [of "exec_call c h"] show ?case by simp
qed

lemma appended_live:
  "live_calls cs h \<Longrightarrow> k \<in> appended cs h a \<Longrightarrow> a < length (exec_calls cs h)"
proof (induction cs arbitrary: h)
  case Nil
  then show ?case by simp
next
  case (Cons c cs)
  from Cons.prems(2) consider "k \<in> appended_by c h a" | "k \<in> appended cs (exec_call c h) a"
    by auto
  then show ?case
  proof cases
    case 1
    with Cons.prems(1) have "a < length (exec_call c h)"
      by (simp add: appended_by_live)
    with exec_calls_length [of "exec_call c h" cs] show ?thesis by simp
  next
    case 2
    with Cons.prems(1) Cons.IH [of "exec_call c h"] show ?thesis by simp
  qed
qed

lemma exec_calls_flags:
  "live_calls cs h \<Longrightarrow> a < length (exec_calls cs h) \<Longrightarrow>
     truthy (present (exec_calls cs h ! a) k) \<longleftrightarrow>
       (a < length h \<and> truthy (present (h ! a) k)) \<or> k \<in> appended cs h a"
proof (induction cs arbitrary: h)
  case Nil
  then show ?case by simp
next
  case (Cons c cs)
  let ?h' = "exec_call c h"
  from Cons.prems have l: "live_call c h" and ls: "live_calls cs ?h'"
    and a: "a < length (exec_calls cs ?h')" by simp_all
  from Cons.IH [OF ls a]
  have ih: "truthy (present (exec_calls cs ?h' ! a) k) \<longleftrightarrow>
       (a < length ?h' \<and> truthy (present (?h' ! a) k)) \<or> k \<in> appended cs ?h' a" .
  show ?case
  proof (cases "a < length ?h'")
    case True
    from exec_call_flags [OF l True] ih True show ?thesis by auto
  next
    case False
    with appended_by_live [OF l] have "k \<notin> appended_by c h a" by blast
    moreover from False exec_call_length [of h c] have "\<not> a < length h" by simp
    ultimately show ?thesis using ih False by simp
  qed
qed


lemma exec_call_text:
  assumes "live_call c h"
    and "\<forall>a k. a < length h \<longrightarrow> k \<noteq> Element \<longrightarrow> truthy (present (h ! a) k) \<longrightarrow>
           selector (h ! a) \<noteq> []"
  shows "\<forall>a k. a < length (exec_call c h) \<longrightarrow> k \<noteq> Element \<longrightarrow>
           truthy (present (exec_call c h ! a) k) \<longrightarrow> selector (exec_call c h ! a) \<noteq> []"
proof (cases c)
  case (Append k' this v)
  show ?thesis
  proof (cases this)
    case Builder
    with Append assms show ?thesis
      by (cases k') (auto simp: append_part_simps op_Builder nth_append less_Suc_eq)
  next
    case (Ref b)
    with Append assms show ?thesis
      by (cases k') (auto simp: append_part_simps op_Ref nth_update_live split: if_splits)
  qed
next
  case (Combine s1 cmb s2)
  with assms show ?thesis by (auto simp: combine_eq nth_append less_Suc_eq)
qed

lemma exec_calls_text:
  "live_calls cs h \<Longrightarrow>
   \<forall>a k. a < length h \<longrightarrow> k \<noteq> Element \<longrightarrow> truthy (present (h ! a) k) \<longrightarrow>
           selector (h ! a) \<noteq> [] \<Longrightarrow>
   \<forall>a k. a < length (exec_calls cs h) \<longrightarrow> k \<noteq> Element \<longrightarrow>
           truthy (present (exec_calls cs h ! a) k) \<longrightarrow> selector (exec_calls cs h ! a) \<noteq> []"
proof (induction cs arbitrary: h)
  case Nil
  then show ?case by simp
next
  case (Cons c cs)
  from Cons.prems have l: "live_call c h" and ls: "live_calls cs (exec_call c h)" by simp_all
  from Cons.IH [OF ls exec_call_text [OF l Cons.prems(2)]] show ?case by simp
qed

section \<open>The claims\<close>

subsection \<open>Order of the parts\<close>

text \<open>
  Claim C1 says that once a part of a later kind was appended, appending a part of an earlier
  kind throws, for instance id after attribute and class after pseudo-element. The methods
  do not do that: \<open>id\<close> looks only at the pseudoElement and class flags, \<open>class\<close> only at
  attr, \<open>attr\<close> only at pseudoClass. So \<^verbatim>\<open>builder.attr('href').id('main')\<close> returns the
  selector \<^verbatim>\<open>[href]#main\<close>, and \<^verbatim>\<open>builder.pseudoElement('after').class('a')\<close> returns
  \<^verbatim>\<open>::after.a\<close>; neither throws.
\<close>

theorem id_after_attr_and_class_after_pseudoElement_succeed:
  "fst (chain Builder [(Attr, ''href''), (Id, ''main'')] []) = Inr (Ref 0)
   \<and> stringify (snd (chain Builder [(Attr, ''href''), (Id, ''main'')] []) ! 0) = ''[href]#main''
   \<and> fst (chain Builder [(PseudoElement, ''after''), (Class, ''a'')] []) = Inr (Ref 0)
   \<and> stringify (snd (chain Builder [(PseudoElement, ''after''), (Class, ''a'')] []) ! 0)
       = ''::after.a''"
  by (simp add: append_part_simps op_Builder op_Ref stringify_def)

subsection \<open>The result of combine\<close>

text \<open>
  Claim C2 says that every appending method fails on a selector made by \<open>combine\<close>. It does
  not: \<open>combine\<close> returns an ordinary Selector, and
  \<^verbatim>\<open>builder.combine(builder.element('div'), '+', builder.element('p')).id('main')\<close>
  returns the selector \<^verbatim>\<open>div + p#main\<close>.
\<close>

theorem combine_result_id_succeeds:
  "fst (combine 0 ''+'' 1
          [\<lparr>selector = ''div'', present = [Element \<mapsto> True]\<rparr>,
           \<lparr>selector = ''p'', present = [Element \<mapsto> True]\<rparr>]) = 2
   \<and> fst (id' (Ref 2) ''main''
        (snd (combine 0 ''+'' 1
          [\<lparr>selector = ''div'', present = [Element \<mapsto> True]\<rparr>,
           \<lparr>selector = ''p'', present = [Element \<mapsto> True]\<rparr>]))) = Inr 2
   \<and> stringify (snd (id' (Ref 2) ''main''
        (snd (combine 0 ''+'' 1
          [\<lparr>selector = ''div'', present = [Element \<mapsto> True]\<rparr>,
           \<lparr>selector = ''p'', present = [Element \<mapsto> True]\<rparr>]))) ! 2) = ''div + p#main''"
  by (simp add: combine_eq id_Ref stringify_def)

text \<open>
  Claim C2, amended: a selector made by \<open>combine\<close> is an ordinary Selector with the combined
  text and no presence flag. On it \<open>element\<close> throws the order error (the text is not
  empty) and leaves it as it is; \<open>id\<close>, \<open>class\<close>, \<open>attr\<close>, \<open>pseudoClass\<close> and
  \<open>pseudoElement\<close> each succeed, return it, and append their part to the combined text.
\<close>

theorem combine_result_only_rejects_element:
  "(case combine a c b h of (r, h1) \<Rightarrow>
      element (Ref r) v h1 = (Inl orderError, h1)
      \<and> fst (id' (Ref r) v h1) = Inr r
      \<and> stringify (snd (id' (Ref r) v h1) ! r) = stringify (h1 ! r) @ ''#'' @ v
      \<and> fst (class' (Ref r) v h1) = Inr r
      \<and> stringify (snd (class' (Ref r) v h1) ! r) = stringify (h1 ! r) @ ''.'' @ v
      \<and> fst (attr (Ref r) v h1) = Inr r
      \<and> stringify (snd (attr (Ref r) v h1) ! r) = stringify (h1 ! r) @ ''['' @ v @ '']''
      \<and> fst (pseudoClass (Ref r) v h1) = Inr r
      \<and> stringify (snd (pseudoClass (Ref r) v h1) ! r) = stringify (h1 ! r) @ '':'' @ v
      \<and> fst (pseudoElement (Ref r) v h1) = Inr r
      \<and> stringify (snd (pseudoElement (Ref r) v h1) ! r) = stringify (h1 ! r) @ ''::'' @ v)"
  by (simp add: combine_eq op_Ref stringify_def)

subsection \<open>When the order error is thrown\<close>

text \<open>
  Claim C3 says that each method throws the order error exactly when its precondition of
  the table fails. \<open>element\<close>, \<open>id\<close> and \<open>pseudoElement\<close> test for a duplicate first:
  \<^verbatim>\<open>builder.element('div').element('p')\<close> calls \<open>element\<close> on a selector that is not
  empty, and \<^verbatim>\<open>builder.id('a').class('b').id('c')\<close> calls \<open>id\<close> after a class; both
  throw the quantity error, not the order error.
\<close>

theorem duplicate_check_precedes_order_check:
  "stringify (snd (element Builder ''div'' []) ! 0) = ''div''
   \<and> fst (element (Ref 0) ''p'' (snd (element Builder ''div'' []))) = Inl quantityError
   \<and> fst (element (Ref 0) ''p'' (snd (element Builder ''div'' []))) \<noteq> Inl orderError
   \<and> fst (chain Builder [(Id, ''a''), (Class, ''b'')] []) = Inr (Ref 0)
   \<and> fst (id' (Ref 0) ''c'' (snd (chain Builder [(Id, ''a''), (Class, ''b'')] [])))
        = Inl quantityError
   \<and> fst (id' (Ref 0) ''c'' (snd (chain Builder [(Id, ''a''), (Class, ''b'')] [])))
        \<noteq> Inl orderError"
  using errors_distinct by (simp add: append_part_simps op_Builder op_Ref stringify_def)

text \<open>
  Claim C3, amended. Take any program that starts with no selector, and any selector it
  has made; a part was appended to the selector when a method returned it. Each method
  called on the selector tests for a duplicate first: \<open>element\<close>, \<open>id\<close> and
  \<open>pseudoElement\<close> throw the quantity error exactly when a part of their kind was
  appended already. A method whose part is no duplicate throws the order error exactly when
  its precondition of the table fails, and succeeds exactly when it holds. The
  preconditions: for \<open>element\<close> the text is empty (so after any part was appended
  \<open>element\<close> throws); for \<open>id\<close> no pseudo-element and no class was appended; for
  \<open>class\<close> no attribute; for \<open>attr\<close> no pseudo-class; for \<open>pseudoClass\<close> no
  pseudo-element; for \<open>pseudoElement\<close> no class. Called on the facade, every method
  works on a new selector and succeeds.
\<close>

theorem order_error_after_duplicate_check:
  assumes "live_calls cs []" and "H = exec_calls cs []" and "a < length H"
    and "A = appended cs [] a"
  shows
   "(fst (element (Ref a) v H) = Inl quantityError \<longleftrightarrow> Element \<in> A)
    \<and> (fst (element (Ref a) v H) = Inl orderError \<longleftrightarrow> Element \<notin> A \<and> stringify (H ! a) \<noteq> [])
    \<and> (fst (element (Ref a) v H) = Inr a \<longleftrightarrow> Element \<notin> A \<and> stringify (H ! a) = [])
    \<and> (A \<noteq> {} \<longrightarrow> fst (element (Ref a) v H) \<in> {Inl quantityError, Inl orderError})
    \<and> (fst (id' (Ref a) v H) = Inl quantityError \<longleftrightarrow> Id \<in> A)
    \<and> (fst (id' (Ref a) v H) = Inl orderError \<longleftrightarrow>
          Id \<notin> A \<and> (PseudoElement \<in> A \<or> Class \<in> A))
    \<and> (fst (id' (Ref a) v H) = Inr a \<longleftrightarrow> Id \<notin> A \<and> PseudoElement \<notin> A \<and> Class \<notin> A)
    \<and> (fst (class' (Ref a) v H) = Inl orderError \<longleftrightarrow> Attr \<in> A)
    \<and> (fst (class' (Ref a) v H) = Inr a \<longleftrightarrow> Attr \<notin> A)
    \<and> (fst (attr (Ref a) v H) = Inl orderError \<longleftrightarrow> PseudoClass \<in> A)
    \<and> (fst (attr (Ref a) v H) = Inr a \<longleftrightarrow> PseudoClass \<notin> A)
    \<and> (fst (pseudoClass (Ref a) v H) = Inl orderError \<longleftrightarrow> PseudoElement \<in> A)
    \<and> (fst (pseudoClass (Ref a) v H) = Inr a \<longleftrightarrow> PseudoElement \<notin> A)
    \<and> (fst (pseudoElement (Ref a) v H) = Inl quantityError \<longleftrightarrow> PseudoElement \<in> A)
    \<and> (fst (pseudoElement (Ref a) v H) = Inl orderError \<longleftrightarrow>
          PseudoElement \<notin> A \<and> Class \<in> A)
    \<and> (fst (pseudoElement (Ref a) v H) = Inr a \<longleftrightarrow> PseudoElement \<notin> A \<and> Class \<notin> A)
    \<and> fst (append_part k Builder v H) = Inr (length H)"
proof -
  have flag: "truthy (present (H ! a) k') \<longleftrightarrow> k' \<in> A" for k'
    using exec_calls_flags [OF assms(1), of a k'] assms(2,3,4) by simp
  have "\<forall>a k. a < length (exec_calls cs []) \<longrightarrow> k \<noteq> Element \<longrightarrow>
           truthy (present (exec_calls cs [] ! a) k) \<longrightarrow> selector (exec_calls cs [] ! a) \<noteq> []"
    by (rule exec_calls_text [OF assms(1)]) simp
  with assms(2,3) flag have nonempty: "k' \<noteq> Element \<Longrightarrow> k' \<in> A \<Longrightarrow> selector (H ! a) \<noteq> []" for k'
    by blast
  have first: "A \<noteq> {} \<longrightarrow> fst (element (Ref a) v H) \<in> {Inl quantityError, Inl orderError}"
  proof
    assume "A \<noteq> {}"
    then obtain k' where k': "k' \<in> A" by blast
    show "fst (element (Ref a) v H) \<in> {Inl quantityError, Inl orderError}"
    proof (cases "k' = Element")
      case True
      with k' flag show ?thesis by (simp add: element_Ref)
    next
      case False
      from nonempty [OF False k'] show ?thesis by (simp add: element_Ref)
    qed
  qed
  have facade: "fst (append_part k Builder v H) = Inr (length H)"
    by (cases k) (simp_all add: append_part_simps op_Builder)
  have e: "(fst (element (Ref a) v H) = Inl quantityError \<longleftrightarrow> Element \<in> A)
    \<and> (fst (element (Ref a) v H) = Inl orderError \<longleftrightarrow> Element \<notin> A \<and> stringify (H ! a) \<noteq> [])
    \<and> (fst (element (Ref a) v H) = Inr a \<longleftrightarrow> Element \<notin> A \<and> stringify (H ! a) = [])"
    using errors_distinct by (simp add: element_Ref stringify_def flag)
  have i: "(fst (id' (Ref a) v H) = Inl quantityError \<longleftrightarrow> Id \<in> A)
    \<and> (fst (id' (Ref a) v H) = Inl orderError \<longleftrightarrow>
          Id \<notin> A \<and> (PseudoElement \<in> A \<or> Class \<in> A))
    \<and> (fst (id' (Ref a) v H) = Inr a \<longleftrightarrow> Id \<notin> A \<and> PseudoElement \<notin> A \<and> Class \<notin> A)"
    using errors_distinct by (simp add: id_Ref flag)
  have c: "(fst (class' (Ref a) v H) = Inl orderError \<longleftrightarrow> Attr \<in> A)
    \<and> (fst (class' (Ref a) v H) = Inr a \<longleftrightarrow> Attr \<notin> A)"
    by (simp add: class_Ref flag)
  have t: "(fst (attr (Ref a) v H) = Inl orderError \<longleftrightarrow> PseudoClass \<in> A)
    \<and> (fst (attr (Ref a) v H) = Inr a \<longleftrightarrow> PseudoClass \<notin> A)"
    by (simp add: attr_Ref flag)
  have pc: "(fst (pseudoClass (Ref a) v H) = Inl orderError \<longleftrightarrow> PseudoElement \<in> A)
    \<and> (fst (pseudoClass (Ref a) v H) = Inr a \<longleftrightarrow> PseudoElement \<notin> A)"
    by (simp add: pseudoClass_Ref flag)
  have pe: "(fst (pseudoElement (Ref a) v H) = Inl quantityError \<longleftrightarrow> PseudoElement \<in> A)
    \<and> (fst (pseudoElement (Ref a) v H) = Inl orderError \<longleftrightarrow>
          PseudoElement \<notin> A \<and> Class \<in> A)
    \<and> (fst (pseudoElement (Ref a) v H) = Inr a \<longleftrightarrow> PseudoElement \<notin> A \<and> Class \<notin> A)"
    using errors_distinct by (simp add: pseudoElement_Ref flag)
  from e first i c t pc pe facade show ?thesis by blast
qed

theorem order_error_after_duplicate_check_witness:
  "live_calls [Append Class Builder ''a'', Append Element (Ref 0) ''div'', Append Id Builder ''x''] []
   \<and> 0 < length (exec_calls
        [Append Class Builder ''a'', Append Element (Ref 0) ''div'', Append Id Builder ''x''] [])
   \<and> appended [Append Class Builder ''a'', Append Element (Ref 0) ''div'', Append Id Builder ''x'']
        [] 0 = {Class}
   \<and> fst (element (Ref 0) ''div'' (exec_calls
        [Append Class Builder ''a'', Append Element (Ref 0) ''div'', Append Id Builder ''x''] []))
        = Inl orderError
   \<and> fst (id' (Ref 0) ''main'' (exec_calls
        [Append Class Builder ''a'', Append Element (Ref 0) ''div'', Append Id Builder ''x''] []))
        = Inl orderError
   \<and> fst (class' (Ref 0) ''b'' (exec_calls
        [Append Class Builder ''a'', Append Element (Ref 0) ''div'', Append Id Builder ''x''] []))
        = Inr 0
   \<and> fst (pseudoElement (Ref 0) ''after'' (exec_calls
        [Append Class Builder ''a'', Append Element (Ref 0) ''div'', Append Id Builder ''x''] []))
        = Inl orderError
   \<and> fst (id' (Ref 1) ''y'' (exec_calls
        [Append Class Builder ''a'', Append Element (Ref 0) ''div'', Append Id Builder ''x''] []))
        = Inl quantityError"
proof -
  let ?cs = "[Append Class Builder ''a'', Append Element (Ref 0) ''div'', Append Id Builder ''x'']"
  have H: "exec_calls ?cs [] =
             [\<lparr>selector = ''.a'', present = [Class \<mapsto> True]\<rparr>,
              \<lparr>selector = ''#x'', present = [Id \<mapsto> True]\<rparr>]"
    by (simp add: append_part_simps op_Builder op_Ref)
  have l: "live_calls ?cs []"
    by (simp add: append_part_simps op_Builder op_Ref)
  have a0: "0 < length (exec_calls ?cs [])" and a1: "1 < length (exec_calls ?cs [])"
    unfolding H by simp_all
  have A0: "appended ?cs [] 0 = {Class}"
    by (simp add: append_part_simps op_Builder op_Ref)
  have A1: "appended ?cs [] 1 = {Id}"
    by (simp add: append_part_simps op_Builder op_Ref)
  have t: "stringify (exec_calls ?cs [] ! 0) \<noteq> []"
    unfolding H by (simp add: stringify_def)
  show ?thesis
    using l a0 A0 t
      order_error_after_duplicate_check [OF l refl a0 A0 [symmetric], of "''div''"]
      order_error_after_duplicate_check [OF l refl a0 A0 [symmetric], of "''main''"]
      order_error_after_duplicate_check [OF l refl a0 A0 [symmetric], of "''b''"]
      order_error_after_duplicate_check [OF l refl a0 A0 [symmetric], of "''after''"]
      order_error_after_duplicate_check [OF l refl a1 A1 [symmetric], of "''y''"]
    by simp
qed

subsection \<open>Duplicates\<close>

text \<open>
  Claim C4: on one selector, \<open>element\<close>, \<open>id\<close> and \<open>pseudoElement\<close> can each succeed
  once only. After one of them has succeeded and returned the selector, and whatever calls
  (on this or on other selectors, thrown or not) the program makes in between, calling it
  again on that selector throws the quantity error and changes nothing. \<open>class\<close>, \<open>attr\<close>
  and \<open>pseudoClass\<close> never throw the quantity error, and when one call of them succeeds,
  so does a chain of any number of further calls of the same method.
\<close>

theorem cardinality_one_parts_fail_twice:
  "(k \<in> {Element, Id, PseudoElement} \<longrightarrow> live this h \<longrightarrow>
      append_part k this v h = (Inr a, h1) \<longrightarrow>
      append_part k (Ref a) w (exec_calls cs h1) = (Inl quantityError, exec_calls cs h1))
   \<and> (k \<in> {Class, Attr, PseudoClass} \<longrightarrow>
        fst (append_part k this v h) \<noteq> Inl quantityError
        \<and> (live this h \<longrightarrow> fst (append_part k this v h) = Inr a \<longrightarrow>
             fst (chain this (map (Pair k) (v # vs)) h) = Inr (Ref a)))"
proof (intro conjI impI)
  assume k: "k \<in> {Element, Id, PseudoElement}" and l: "live this h"
    and s: "append_part k this v h = (Inr a, h1)"
  from success_sets_flag [OF l s] have "a < length h1" "truthy (present (h1 ! a) k)"
    by simp_all
  from exec_calls_keeps [OF this] have "truthy (present (exec_calls cs h1 ! a) k)" by simp
  from duplicate_raises_quantityError [OF k this]
  show "append_part k (Ref a) w (exec_calls cs h1) = (Inl quantityError, exec_calls cs h1)" .
next
  assume "k \<in> {Class, Attr, PseudoClass}"
  then show "fst (append_part k this v h) \<noteq> Inl quantityError"
    using errors_distinct
    by (cases this) (auto simp: append_part_simps op_Ref op_Builder split: if_splits)
next
  assume k: "k \<in> {Class, Attr, PseudoClass}" and l: "live this h"
    and s: "fst (append_part k this v h) = Inr a"
  obtain h1 where s': "append_part k this v h = (Inr a, h1)"
    using s by (cases "append_part k this v h") simp
  have "a < length h1 \<and> fst (append_part k (Ref a) v h1) = Inr a"
  proof (cases this)
    case Builder
    with k s' show ?thesis
      by (auto simp: append_part_simps op_Ref op_Builder)
  next
    case (Ref b)
    with k l s' show ?thesis
      by (auto simp: append_part_simps op_Ref split: if_splits)
  qed
  then have "fst (chain (Ref a) (map (Pair k) vs) h1) = Inr (Ref a)"
    using repeatable_chain [OF k] by blast
  with s' show "fst (chain this (map (Pair k) (v # vs)) h) = Inr (Ref a)" by simp
qed

theorem cardinality_one_parts_fail_twice_witness:
  "live Builder []
   \<and> append_part Element Builder ''div'' []
       = (Inr 0, [\<lparr>selector = ''div'', present = [Element \<mapsto> True]\<rparr>])
   \<and> fst (append_part Element (Ref 0) ''p''
        (exec_calls [Append Class (Ref 0) ''a'', Append Element Builder ''td'', Combine 0 ''>'' 1]
           [\<lparr>selector = ''div'', present = [Element \<mapsto> True]\<rparr>])) = Inl quantityError
   \<and> fst (append_part Class Builder ''a'' []) = Inr 0
   \<and> fst (chain Builder (map (Pair Class) [''a'', ''b'', ''c'']) []) = Inr (Ref 0)"
proof -
  let ?h1 = "[\<lparr>selector = ''div'', present = [Element \<mapsto> True]\<rparr>]"
  let ?cs = "[Append Class (Ref 0) ''a'', Append Element Builder ''td'', Combine 0 ''>'' 1]"
  have l: "live Builder []" by simp
  have k1: "Element \<in> {Element, Id, PseudoElement}" by simp
  have k2: "Class \<in> {Class, Attr, PseudoClass}" by simp
  have s1: "append_part Element Builder ''div'' [] = (Inr 0, ?h1)"
    by (simp add: append_part_simps element_Builder)
  have s2: "fst (append_part Class Builder ''a'' []) = Inr 0"
    by (simp add: append_part_simps class_Builder)
  have "append_part Element (Ref 0) ''p'' (exec_calls ?cs ?h1)
          = (Inl quantityError, exec_calls ?cs ?h1)"
    using cardinality_one_parts_fail_twice
      [where k = Element and this = Builder and h = "[]" and v = "''div''" and a = 0
         and ?h1.0 = ?h1 and w = "''p''" and cs = ?cs]
      k1 l s1 by blast
  moreover have "fst (chain Builder (map (Pair Class) [''a'', ''b'', ''c'']) []) = Inr (Ref 0)"
    using cardinality_one_parts_fail_twice
      [where k = Class and this = Builder and h = "[]" and v = "''a''" and a = 0
         and vs = "[''b'', ''c'']"]
      k2 l s2 by blast
  ultimately show ?thesis using l s1 s2 by simp
qed

subsection \<open>combine and stringify\<close>

text \<open>
  Claim C5: the selector made by \<open>combine\<close> from the selectors \<open>A\<close>, \<open>B\<close> and the
  combinator \<open>c\<close> stringifies to the text of \<open>A\<close>, a space, \<open>c\<close> as it was given, a
  space, and the text of \<open>B\<close>. No combinator is rejected.
\<close>

theorem combine_stringify:
  "stringify (snd (combine a c b h) ! fst (combine a c b h)) =
     stringify (h ! a) @ '' '' @ c @ '' '' @ stringify (h ! b)"
  by (simp add: combine_eq stringify_def)

subsection \<open>Chains in the documented order\<close>

text \<open>
  Claim C6 says that every chain in the order element, id, classes, attributes,
  pseudo-classes, pseudo-element succeeds. \<open>pseudoElement\<close> throws the order error when
  a class is present, so \<^verbatim>\<open>builder.element('div').class('a').pseudoElement('after')\<close>,
  which is in that order, throws; the selector is left as \<^verbatim>\<open>div.a\<close>.
\<close>

theorem pseudoElement_after_class_throws:
  "chain Builder [(Element, ''div''), (Class, ''a''), (PseudoElement, ''after'')] [] =
     (Inl orderError, [\<lparr>selector = ''div.a'', present = [Element \<mapsto> True, Class \<mapsto> True]\<rparr>])"
  by (simp add: append_part_simps op_Builder op_Ref)

subsection \<open>Errors\<close>

text \<open>
  Claim C7: a method that throws, with either error, has changed nothing: the store, and
  so the text and the flags of the selector it was called on, is as before the call.
\<close>

theorem append_part_atomic_on_error:
  "fst (append_part k this v h) = Inl e \<Longrightarrow> snd (append_part k this v h) = h"
  by (cases k; cases this) (auto simp: append_part_simps op_Ref op_Builder split: if_splits)

theorem append_part_atomic_on_error_witness:
  "fst (append_part Element (Ref 0) ''p'' [\<lparr>selector = ''div'', present = [Element \<mapsto> True]\<rparr>])
     = Inl quantityError
   \<and> snd (append_part Element (Ref 0) ''p'' [\<lparr>selector = ''div'', present = [Element \<mapsto> True]\<rparr>])
     = [\<lparr>selector = ''div'', present = [Element \<mapsto> True]\<rparr>]"
proof -
  let ?h = "[\<lparr>selector = ''div'', present = [Element \<mapsto> True]\<rparr>]"
  have e: "fst (append_part Element (Ref 0) ''p'' ?h) = Inl quantityError"
    by (simp add: append_part_simps element_Ref)
  from e append_part_atomic_on_error [OF e] show ?thesis by blast
qed

text \<open>
  Claim C8: whatever a method throws is one of the two values \<open>Selector.quantityError\<close> and
  \<open>Selector.orderError\<close>, which are made once when the module is loaded and are different.
  The quantity error is thrown by \<open>element\<close>, \<open>id\<close> and \<open>pseudoElement\<close>, exactly when
  they are called on a selector that has the part already, and it is always that one value.
\<close>

theorem errors_are_the_two_shared_values:
  "(fst (append_part k this v h) = Inl e \<longrightarrow> e = quantityError \<or> e = orderError)
   \<and> quantityError \<noteq> orderError
   \<and> (fst (append_part k this v h) = Inl quantityError \<longleftrightarrow>
        k \<in> {Element, Id, PseudoElement} \<and> (\<exists>a. this = Ref a \<and> truthy (present (h ! a) k)))"
proof (intro conjI)
  show "fst (append_part k this v h) = Inl e \<longrightarrow> e = quantityError \<or> e = orderError"
    by (cases k; cases this) (auto simp: append_part_simps op_Ref op_Builder split: if_splits)
  show "quantityError \<noteq> orderError"
    by (rule errors_distinct)
  show "fst (append_part k this v h) = Inl quantityError \<longleftrightarrow>
          k \<in> {Element, Id, PseudoElement} \<and> (\<exists>a. this = Ref a \<and> truthy (present (h ! a) k))"
    using errors_distinct
    by (cases k; cases this) (auto simp: append_part_simps op_Ref op_Builder split: if_splits)
qed

theorem errors_are_the_two_shared_values_witness:
  "fst (append_part PseudoElement (Ref 0) ''before''
          [\<lparr>selector = ''::after'', present = [PseudoElement \<mapsto> True]\<rparr>]) = Inl quantityError
   \<and> (quantityError = quantityError \<or> quantityError = orderError)
   \<and> quantityError \<noteq> orderError"
  using errors_are_the_two_shared_values
    [of PseudoElement "Ref 0" "''before''"
        "[\<lparr>selector = ''::after'', present = [PseudoElement \<mapsto> True]\<rparr>]" quantityError]
  by simp

subsection \<open>JSON round trip\<close>

text \<open>
  Claim C9: when the own data fields of a value survive the encoding (parsing what
  \<open>JSON.stringify\<close> made of the value gives an object with the same own fields), then
  \<open>fromJSON\<close> of a shape and \<open>getJSON\<close> of the value returns an object with the own fields
  of the value and the shape as prototype, and every method gives on it what it gives on
  an object built with that shape and those fields.
\<close>

theorem fromJSON_getJSON_round_trip:
  assumes "JSON_parse (JSON_stringify v) = Inr d" and "own d = own v"
  shows "\<exists>r. fromJSON JSON_parse p (getJSON JSON_stringify v) = Inr r
           \<and> own r = own v \<and> proto r = p
           \<and> (\<forall>m. invoke r m = invoke \<lparr>own = own v, proto = p\<rparr> m)"
proof -
  let ?r = "setPrototypeOf d p"
  have "fromJSON JSON_parse p (getJSON JSON_stringify v) = Inr ?r"
    using assms(1) by (simp add: fromJSON_def getJSON_def)
  moreover have "own ?r = own v" and "proto ?r = p"
    using assms(2) by (simp_all add: setPrototypeOf_def)
  moreover from this have "invoke ?r m = invoke \<lparr>own = own v, proto = p\<rparr> m" for m
    by (simp add: invoke_def split: option.splits)
  ultimately show ?thesis by blast
qed

theorem fromJSON_getJSON_round_trip_witness:
  \<open>(\<lambda>s. if s = ''{"radius":10}''
          then Inr \<lparr>own = [(''radius'', 10::nat)], proto = Map.empty\<rparr> else Inl ''SyntaxError'')
     ((\<lambda>obj. if own obj = [(''radius'', 10::nat)] then ''{"radius":10}'' else ''{}'')
        \<lparr>own = [(''radius'', 10::nat)], proto = [''getArea'' \<mapsto> (\<lambda>d. map_of d ''radius'')]\<rparr>)
     = Inr \<lparr>own = [(''radius'', 10::nat)], proto = Map.empty\<rparr>
   \<and> (\<exists>r. fromJSON
         (\<lambda>s. if s = ''{"radius":10}''
               then Inr \<lparr>own = [(''radius'', 10::nat)], proto = Map.empty\<rparr>
               else Inl ''SyntaxError'')
         [''getDiameter'' \<mapsto> (\<lambda>d. map_option ((*) 2) (map_of d ''radius''))]
         (getJSON (\<lambda>obj. if own obj = [(''radius'', 10::nat)] then ''{"radius":10}'' else ''{}'')
            \<lparr>own = [(''radius'', 10::nat)], proto = [''getArea'' \<mapsto> (\<lambda>d. map_of d ''radius'')]\<rparr>)
         = Inr r
       \<and> own r = [(''radius'', 10)]
       \<and> invoke r ''getDiameter'' = Some (Some 20))\<close>
  using fromJSON_getJSON_round_trip
    [of "\<lambda>s. if s = ''{\"radius\":10}''
          then Inr \<lparr>own = [(''radius'', 10::nat)], proto = Map.empty\<rparr> else Inl ''SyntaxError''"
        "\<lambda>obj. if own obj = [(''radius'', 10::nat)] then ''{\"radius\":10}'' else ''{}''"
        "\<lparr>own = [(''radius'', 10::nat)], proto = [''getArea'' \<mapsto> (\<lambda>d. map_of d ''radius'')]\<rparr>"
        "\<lparr>own = [(''radius'', 10::nat)], proto = Map.empty\<rparr>"
        "[''getDiameter'' \<mapsto> (\<lambda>d. map_option ((*) 2) (map_of d ''radius''))]"]
  by (simp add: invoke_def fromJSON_def getJSON_def setPrototypeOf_def)

subsection \<open>Rectangle\<close>

text \<open>
  Claim C10: \<open>Rectangle(width, height)\<close> has the fields \<open>width\<close> and \<open>height\<close> it was given,
  and its \<open>getArea\<close> returns their product; \<open>Rectangle(10, 20)\<close> has width 10, height 20
  and area 200.
\<close>

theorem Rectangle_fields_and_area:
  "width (Rectangle w h) = w \<and> height (Rectangle w h) = h \<and> getArea (Rectangle w h) () = w * h
   \<and> width (Rectangle (10::int) 20) = 10 \<and> height (Rectangle (10::int) 20) = 20
   \<and> getArea (Rectangle (10::int) 20) () = 200"
  by (simp add: Rectangle_def)

end
